theory Spec2Isabelle
  imports Main "HOL-Library.Sublist" "HOL-Library.Multiset" "HOL-Library.AList"
begin

section \<open>Python string primitives used by the resume generator\<close>

text \<open>
  Strings are character lists. Every character the generator inspects (the markdown
  delimiters, the LaTeX reserved characters, the placeholder text, the newline) is ASCII,
  so the functions below act on any other character only by copying it.
\<close>

abbreviation backslash :: char where
  "backslash \<equiv> CHR 0x5C"

abbreviation newline :: char where
  "newline \<equiv> CHR 0x0A"

text \<open>
  \<^verbatim>\<open>needle in text\<close>: the substring test.
\<close>

fun contains :: "string \<Rightarrow> string \<Rightarrow> bool" where
  "contains needle [] = (needle = [])"
| "contains needle (c # cs) = (prefix needle (c # cs) \<or> contains needle cs)"

text \<open>
  \<^verbatim>\<open>text.replace(old, new)\<close>: every non-overlapping occurrence of \<open>old\<close>, found
  from the left, is replaced by \<open>new\<close>; the replaced text is not scanned again. With an
  empty \<open>old\<close> Python inserts \<open>new\<close> before every character and at the end.
\<close>

function str_replace_scan :: "string \<Rightarrow> string \<Rightarrow> string \<Rightarrow> string" where
  "str_replace_scan old new [] = []"
| "str_replace_scan old new (c # cs) =
     (if old \<noteq> [] \<and> prefix old (c # cs)
      then new @ str_replace_scan old new (drop (length old) (c # cs))
      else c # str_replace_scan old new cs)"
  by pat_completeness auto
termination
  by (relation "measure (\<lambda>(old, new, text). length text)") auto

definition str_replace :: "string \<Rightarrow> string \<Rightarrow> string \<Rightarrow> string" where
  "str_replace old new text =
     (if old = [] then new @ concat (map (\<lambda>c. c # new) text)
      else str_replace_scan old new text)"

subsection \<open>The regular expressions of the markdown pass\<close>

text \<open>
  Each pattern of \<^verbatim>\<open>convert_markdown_to_latex\<close> has the shape
  \<^verbatim>\<open>D(.+?)D\<close> for a literal delimiter \<open>D\<close>, and each template has the shape
  \<^verbatim>\<open>START\1END\<close>. The lazy group takes one character that is not a newline, then
  stops at the first position where the closing delimiter follows, taking one more
  character each time it does not; it fails at a newline or at the end of the text.
  \<open>lazy_content\<close> returns the captured group and the text after the closing delimiter.
\<close>

fun lazy_content :: "string \<Rightarrow> string \<Rightarrow> (string \<times> string) option" where
  "lazy_content D [] = None"
| "lazy_content D (c # cs) =
     (if c = newline then None
      else if prefix D cs then Some ([c], drop (length D) cs)
      else (case lazy_content D cs of
              None \<Rightarrow> None
            | Some (k, r) \<Rightarrow> Some (c # k, r)))"

definition match_here :: "string \<Rightarrow> string \<Rightarrow> (string \<times> string) option" where
  "match_here D text =
     (if prefix D text then lazy_content D (drop (length D) text) else None)"

lemma lazy_content_shorter:
  "lazy_content D cs = Some (k, r) \<Longrightarrow> length r < length cs"
proof (induction cs arbitrary: k r)
  case Nil
  then show ?case by simp
next
  case (Cons c cs)
  then show ?case
    by (fastforce split: if_splits option.splits)
qed

lemma match_here_shorter:
  "match_here D (c # cs) = Some (k, r) \<Longrightarrow> length r < Suc (length cs)"
proof -
  assume m: "match_here D (c # cs) = Some (k, r)"
  then have "lazy_content D (drop (length D) (c # cs)) = Some (k, r)"
    by (simp add: match_here_def split: if_splits)
  then have "length r < length (drop (length D) (c # cs))"
    by (rule lazy_content_shorter)
  then show ?thesis by simp
qed

text \<open>
  \<^verbatim>\<open>re.sub(r"D(.+?)D", r"START\1END", text)\<close>: the scan goes from the left; where
  the pattern matches, the match is replaced and the scan goes on after it; elsewhere
  the character is copied.
\<close>

function re_sub :: "string \<Rightarrow> string \<Rightarrow> string \<Rightarrow> string \<Rightarrow> string" where
  "re_sub D START END [] = []"
| "re_sub D START END (c # cs) =
     (case match_here D (c # cs) of
        Some (k, r) \<Rightarrow> START @ k @ END @ re_sub D START END r
      | None \<Rightarrow> c # re_sub D START END cs)"
  by pat_completeness auto
termination
  by (relation "measure (\<lambda>(D, START, END, text). length text)")
     (auto dest: match_here_shorter)

section \<open>The inline-markup translator\<close>

definition TEXTBFSTART :: string where "TEXTBFSTART = ''<<<TEXTBFSTART>>>''"
definition TEXTBFEND :: string where "TEXTBFEND = ''<<<TEXTBFEND>>>''"
definition TEXTITSTART :: string where "TEXTITSTART = ''<<<TEXTITSTART>>>''"
definition TEXTITEND :: string where "TEXTITEND = ''<<<TEXTITEND>>>''"
definition TEXTTTSTART :: string where "TEXTTTSTART = ''<<<TEXTTTSTART>>>''"
definition TEXTTTEND :: string where "TEXTTTEND = ''<<<TEXTTTEND>>>''"

lemmas placeholder_defs =
  TEXTBFSTART_def TEXTBFEND_def TEXTITSTART_def TEXTITEND_def TEXTTTSTART_def TEXTTTEND_def

definition convert_markdown_to_latex :: "string \<Rightarrow> string" where
  "convert_markdown_to_latex text =
     (let text = re_sub ''**'' TEXTBFSTART TEXTBFEND text;
          text = re_sub ''*'' TEXTBFSTART TEXTBFEND text;
          text = re_sub ''_'' TEXTITSTART TEXTITEND text;
          text = re_sub ''`'' TEXTTTSTART TEXTTTEND text
      in text)"

section \<open>The special-character escaper\<close>

text \<open>
  The dictionary \<^verbatim>\<open>replacements\<close> in insertion order, which is the order in which
  \<^verbatim>\<open>replacements.items()\<close> is traversed.
\<close>

definition base_replacements :: "(char \<times> string) list" where
  "base_replacements =
     [(CHR ''&'', backslash # ''&''),
      (CHR ''%'', backslash # ''%''),
      (CHR ''$'', backslash # ''$''),
      (CHR ''#'', backslash # ''#''),
      (CHR ''~'', backslash # ''textasciitilde{}''),
      (CHR ''^'', backslash # ''textasciicircum{}'')]"

definition raw_replacements :: "(char \<times> string) list" where
  "raw_replacements =
     [(CHR ''_'', backslash # ''_''),
      (CHR ''{'', backslash # ''{''),
      (CHR ''}'', backslash # ''}'')]"

definition replacements :: "bool \<Rightarrow> (char \<times> string) list" where
  "replacements preserve_commands =
     (if \<not> preserve_commands then base_replacements @ raw_replacements
      else base_replacements)"

text \<open>The loop \<^verbatim>\<open>for char, replacement in table: text = text.replace(char, replacement)\<close>.\<close>

definition apply_replacements :: "(char \<times> string) list \<Rightarrow> string \<Rightarrow> string" where
  "apply_replacements table text =
     fold (\<lambda>(char, replacement) t. str_replace [char] replacement t) table text"

definition resolve_placeholders :: "string \<Rightarrow> string" where
  "resolve_placeholders text =
     (let text = str_replace TEXTBFSTART (backslash # ''textbf{'') text;
          text = str_replace TEXTBFEND ''}'' text;
          text = str_replace TEXTITSTART (backslash # ''textit{'') text;
          text = str_replace TEXTITEND ''}'' text;
          text = str_replace TEXTTTSTART (backslash # ''texttt{'') text;
          text = str_replace TEXTTTEND ''}'' text
      in text)"

definition escape_latex :: "string \<Rightarrow> bool \<Rightarrow> string" where
  "escape_latex text preserve_commands =
     (let text = apply_replacements (replacements preserve_commands) text
      in if preserve_commands then resolve_placeholders text else text)"

section \<open>Resume data and the recursive sanitizer\<close>

text \<open>
  The values \<^verbatim>\<open>yaml.safe_load\<close> produces: mappings (in insertion order, keys being
  values themselves), sequences, strings, and the leaves that are none of these.
\<close>

datatype 'a pyval =
    PDict "('a pyval \<times> 'a pyval) list"
  | PList "'a pyval list"
  | PStr string
  | PNone
  | PBool bool
  | PInt int
  | POther 'a

text \<open>\<^verbatim>\<open>_escape_data\<close>, with the branches in the order of its \<^verbatim>\<open>isinstance\<close> tests.\<close>

fun escape_data :: "'a pyval \<Rightarrow> 'a pyval" where
  "escape_data (PDict items) = PDict (map (\<lambda>kv. (fst kv, escape_data (snd kv))) items)"
| "escape_data (PList items) = PList (map escape_data items)"
| "escape_data (PStr s) = PStr (escape_latex (convert_markdown_to_latex s) True)"
| "escape_data other = other"

section \<open>Exceptions, printed output and the output directory\<close>

datatype exc =
    CalledProcessError string
  | FileNotFoundError
  | FileExistsError
  | PermissionError
  | OtherException
  | KeyboardInterrupt

text \<open>What \<^verbatim>\<open>except Exception\<close> catches: everything but the interrupt.\<close>

fun is_Exception :: "exc \<Rightarrow> bool" where
  "is_Exception KeyboardInterrupt = False"
| "is_Exception e = True"

datatype stream = Stdout | Stderr

datatype message =
    Generating
  | Loaded
  | ErrorLoading exc
  | Rendered
  | ErrorRendering exc
  | TexWritten
  | Compiling
  | CompilerOutput string
  | PdfGenerated
  | ErrorCompiling string
  | TectonicNotFound

text \<open>
  What sits at a path of the output directory: nothing, a file or directory, or a
  symbolic link (with the flag telling whether its target exists).
\<close>

datatype entry = Absent | Regular | Symlink bool

record world =
  cls_symlink :: entry
  fonts_symlink :: entry
  printed :: "(stream \<times> message) list"

definition print :: "stream \<Rightarrow> message \<Rightarrow> world \<Rightarrow> world" where
  "print s m w = w\<lparr>printed := printed w @ [(s, m)]\<rparr>"

text \<open>
  \<^verbatim>\<open>Path.exists\<close> follows links, \<^verbatim>\<open>Path.is_symlink\<close> does not;
  \<^verbatim>\<open>Path.symlink_to\<close> raises when the path is taken (or when the system refuses,
  the \<open>fault\<close>); \<^verbatim>\<open>Path.unlink\<close> removes the entry, and raises when there is
  none or when the system refuses (a directory that is not writable, say), leaving the
  entry in place.
\<close>

fun path_exists :: "entry \<Rightarrow> bool" where
  "path_exists Absent = False"
| "path_exists Regular = True"
| "path_exists (Symlink target_exists) = target_exists"

fun is_symlink :: "entry \<Rightarrow> bool" where
  "is_symlink (Symlink t) = True"
| "is_symlink e = False"

definition symlink_to :: "exc option \<Rightarrow> bool \<Rightarrow> entry \<Rightarrow> exc + entry" where
  "symlink_to fault target_exists e =
     (case fault of
        Some x \<Rightarrow> Inl x
      | None \<Rightarrow> if e \<noteq> Absent then Inl FileExistsError else Inr (Symlink target_exists))"

definition unlink :: "exc option \<Rightarrow> entry \<Rightarrow> exc + entry" where
  "unlink fault e =
     (case fault of
        Some x \<Rightarrow> Inl x
      | None \<Rightarrow> if e = Absent then Inl FileNotFoundError else Inr Absent)"

section \<open>The environment of one run\<close>

datatype source = Directory "string \<Rightarrow> string option" | File string | NoSuchFile

datatype run_result = Completed string | RunRaised exc

text \<open>
  Everything outside the program: the data source, the YAML parser, the template engine,
  the result of writing the \<^verbatim>\<open>.tex\<close> file, whether the assets the links point to exist,
  a refusal of either \<^verbatim>\<open>symlink_to\<close> or of either \<^verbatim>\<open>unlink\<close>, and what running
  \<^verbatim>\<open>tectonic\<close> does (\<^verbatim>\<open>check=True\<close> turns a non-zero exit into
  \<^verbatim>\<open>CalledProcessError\<close>, a missing binary is \<^verbatim>\<open>FileNotFoundError\<close>).
\<close>

record 'a env =
  source :: source
  safe_load :: "string \<Rightarrow> exc + 'a pyval"
  jinja_render :: "'a pyval \<Rightarrow> exc + string"
  write_tex :: "string \<Rightarrow> exc option"
  cls_target_exists :: bool
  fonts_target_exists :: bool
  cls_fault :: "exc option"
  fonts_fault :: "exc option"
  run_tectonic :: "string \<Rightarrow> run_result"
  cls_unlink_fault :: "exc option"
  fonts_unlink_fault :: "exc option"

section \<open>The data loader\<close>

definition sections :: "string list" where
  "sections = [''personal'', ''config'', ''experience'', ''projects'', ''education'',
               ''skills'', ''research'']"

text \<open>
  The loop of \<^verbatim>\<open>_load_from_directory\<close> over the remaining sections, with the
  dictionary built so far; \<^verbatim>\<open>data[section] = section_data\<close> is the update of an
  insertion-ordered dictionary.
\<close>

fun load_sections ::
  "(string \<Rightarrow> exc + 'v) \<Rightarrow> (string \<Rightarrow> string option) \<Rightarrow> string list \<Rightarrow>
   (string \<times> 'v) list \<Rightarrow> exc + (string \<times> 'v) list" where
  "load_sections load data_dir [] data = Inr data"
| "load_sections load data_dir (section # rest) data =
     (case data_dir (section @ ''.yaml'') of
        None \<Rightarrow> load_sections load data_dir rest data
      | Some f \<Rightarrow>
          (case load f of
             Inl e \<Rightarrow> Inl e
           | Inr section_data \<Rightarrow>
               load_sections load data_dir rest (AList.update section section_data data)))"

definition load_from_directory ::
  "(string \<Rightarrow> exc + 'v) \<Rightarrow> (string \<Rightarrow> string option) \<Rightarrow> exc + (string \<times> 'v) list" where
  "load_from_directory load data_dir = load_sections load data_dir sections []"

definition load_resume_data :: "'a env \<Rightarrow> exc + 'a pyval" where
  "load_resume_data env =
     (case source env of
        Directory data_dir \<Rightarrow>
          (case load_from_directory (safe_load env) data_dir of
             Inl e \<Rightarrow> Inl e
           | Inr data \<Rightarrow> Inr (PDict (map (\<lambda>kv. (PStr (fst kv), snd kv)) data)))
      | File f \<Rightarrow> safe_load env f
      | NoSuchFile \<Rightarrow> Inl FileNotFoundError)"

section \<open>Rendering, compiling and the orchestrator\<close>

definition render_template :: "'a env \<Rightarrow> 'a pyval \<Rightarrow> exc + string" where
  "render_template env data = jinja_render env (escape_data data)"

text \<open>The body of the \<^verbatim>\<open>try\<close> block of \<^verbatim>\<open>compile_latex\<close>.\<close>

definition try_body :: "'a env \<Rightarrow> string \<Rightarrow> world \<Rightarrow> (exc + bool) \<times> world" where
  "try_body env tex_content w =
     (case (if \<not> path_exists (cls_symlink w)
            then symlink_to (cls_fault env) (cls_target_exists env) (cls_symlink w)
            else Inr (cls_symlink w)) of
        Inl e \<Rightarrow> (Inl e, w)
      | Inr c \<Rightarrow>
          (let w = w\<lparr>cls_symlink := c\<rparr> in
           case (if \<not> path_exists (fonts_symlink w)
                 then symlink_to (fonts_fault env) (fonts_target_exists env) (fonts_symlink w)
                 else Inr (fonts_symlink w)) of
             Inl e \<Rightarrow> (Inl e, w)
           | Inr f \<Rightarrow>
               (let w = w\<lparr>fonts_symlink := f\<rparr>;
                    w = print Stdout Compiling w
                in case run_tectonic env tex_content of
                     RunRaised e \<Rightarrow> (Inl e, w)
                   | Completed out \<Rightarrow>
                       (let w = (if out \<noteq> [] then print Stdout (CompilerOutput out) w else w);
                            w = print Stdout PdfGenerated w
                        in (Inr True, w)))))"

text \<open>The two \<^verbatim>\<open>except\<close> clauses; any other exception stays raised.\<close>

fun handlers :: "(exc + bool) \<times> world \<Rightarrow> (exc + bool) \<times> world" where
  "handlers (Inl (CalledProcessError err), w) = (Inr False, print Stderr (ErrorCompiling err) w)"
| "handlers (Inl FileNotFoundError, w) = (Inr False, print Stderr TectonicNotFound w)"
| "handlers (r, w) = (r, w)"

text \<open>
  The \<^verbatim>\<open>finally\<close> clause: two unguarded \<^verbatim>\<open>unlink\<close> calls, so an exception
  from the first leaves the clause before the second test. The result tells whether the
  clause raised.
\<close>

definition cleanup_fonts :: "'a env \<Rightarrow> world \<Rightarrow> exc option \<times> world" where
  "cleanup_fonts env w =
     (if is_symlink (fonts_symlink w)
      then (case unlink (fonts_unlink_fault env) (fonts_symlink w) of
              Inl e \<Rightarrow> (Some e, w)
            | Inr f \<Rightarrow> (None, w\<lparr>fonts_symlink := f\<rparr>))
      else (None, w))"

definition cleanup :: "'a env \<Rightarrow> world \<Rightarrow> exc option \<times> world" where
  "cleanup env w =
     (if is_symlink (cls_symlink w)
      then (case unlink (cls_unlink_fault env) (cls_symlink w) of
              Inl e \<Rightarrow> (Some e, w)
            | Inr c \<Rightarrow> cleanup_fonts env (w\<lparr>cls_symlink := c\<rparr>))
      else cleanup_fonts env w)"

text \<open>
  \<^verbatim>\<open>compile_latex\<close>: the file is written before the \<^verbatim>\<open>try\<close> statement, so an
  exception there leaves the function at once; after that the \<^verbatim>\<open>finally\<close> clause runs
  whatever the body and the handlers did, and an exception raised in it replaces the
  pending result.
\<close>

definition compile_latex :: "'a env \<Rightarrow> string \<Rightarrow> world \<Rightarrow> (exc + bool) \<times> world" where
  "compile_latex env tex_content w =
     (case write_tex env tex_content of
        Some e \<Rightarrow> (Inl e, w)
      | None \<Rightarrow>
          (let w = print Stdout TexWritten w;
               (r, w) = handlers (try_body env tex_content w)
           in case cleanup env w of
                (Some e, w) \<Rightarrow> (Inl e, w)
              | (None, w) \<Rightarrow> (r, w)))"

definition generate :: "'a env \<Rightarrow> world \<Rightarrow> (exc + bool) \<times> world" where
  "generate env w =
     (let w = print Stdout Generating w in
      case load_resume_data env of
        Inl e \<Rightarrow>
          if is_Exception e then (Inr False, print Stderr (ErrorLoading e) w) else (Inl e, w)
      | Inr data \<Rightarrow>
          (let w = print Stdout Loaded w in
           case render_template env data of
             Inl e \<Rightarrow>
               if is_Exception e then (Inr False, print Stderr (ErrorRendering e) w)
               else (Inl e, w)
           | Inr tex_content \<Rightarrow>
               (let w = print Stdout Rendered w in compile_latex env tex_content w)))"

text \<open>
  \<^verbatim>\<open>main\<close>: \<^verbatim>\<open>sys.exit(0 if success else 1)\<close>; an exception that leaves
  \<^verbatim>\<open>generate\<close> is not caught here either.
\<close>

datatype exit = ExitCode int | Uncaught exc

definition main :: "'a env \<Rightarrow> world \<Rightarrow> exit" where
  "main env w =
     (case fst (generate env w) of
        Inr success \<Rightarrow> ExitCode (if success then 0 else 1)
      | Inl e \<Rightarrow> Uncaught e)"

section \<open>Notions used to state the properties\<close>

text \<open>The nine characters escaped in raw mode.\<close>

definition reserved_raw :: string where
  "reserved_raw = ''&%$#~^_{}''"

text \<open>
  Reading a text as LaTeX does, a backslash takes the character after it (a control
  symbol, or the first letter of a control word). \<open>no_unescaped text\<close>: no reserved
  character of \<open>text\<close> stands outside such a pair.
\<close>

fun no_unescaped :: "string \<Rightarrow> bool" where
  "no_unescaped [] = True"
| "no_unescaped [c] = (c \<notin> set reserved_raw)"
| "no_unescaped (c # x # xs) =
     (if c = backslash then no_unescaped xs
      else c \<notin> set reserved_raw \<and> no_unescaped (x # xs))"

text \<open>
  \<open>no_escaped_pair text\<close>: read the same way, \<open>text\<close> has no backslash that takes
  one of the seven characters whose replacement is a backslash and the character.
\<close>

fun no_escaped_pair :: "string \<Rightarrow> bool" where
  "no_escaped_pair [] = True"
| "no_escaped_pair [c] = True"
| "no_escaped_pair (c # x # xs) =
     (if c = backslash then x \<notin> set ''&%$#_{}'' \<and> no_escaped_pair xs
      else no_escaped_pair (x # xs))"

text \<open>The state in which \<^verbatim>\<open>compile_latex\<close> enters its \<^verbatim>\<open>finally\<close> clause.\<close>

definition before_finally :: "'a env \<Rightarrow> string \<Rightarrow> world \<Rightarrow> world" where
  "before_finally env tex_content w =
     snd (handlers (try_body env tex_content (print Stdout TexWritten w)))"

text \<open>What a table does to a single character when read as a dictionary.\<close>

definition char_image :: "(char \<times> string) list \<Rightarrow> char \<Rightarrow> string" where
  "char_image table x = (case map_of table x of Some r \<Rightarrow> r | None \<Rightarrow> [x])"

text \<open>No replacement text of a table contains the character of another entry.\<close>

definition cross_free :: "(char \<times> string) list \<Rightarrow> bool" where
  "cross_free table =
     (\<forall>e \<in> set table. \<forall>e' \<in> set table. fst e \<noteq> fst e' \<longrightarrow> fst e \<notin> set (snd e'))"

text \<open>A value with the text of its string leaves erased (keys are kept).\<close>

fun skeleton :: "'a pyval \<Rightarrow> 'a pyval" where
  "skeleton (PDict items) = PDict (map (\<lambda>kv. (fst kv, skeleton (snd kv))) items)"
| "skeleton (PList items) = PList (map skeleton items)"
| "skeleton (PStr s) = PStr []"
| "skeleton other = other"

subsection \<open>Sample inputs\<close>

definition experience :: "unit pyval list" where
  "experience =
     [PDict [(PStr ''job_title'', PStr ''R&D *lead*''), (PStr ''years'', PInt 3)],
      PDict [(PStr ''job_title'', PStr ''dev_ops''), (PStr ''remote'', PBool True)]]"

definition sample_world :: world where
  "sample_world = \<lparr>cls_symlink = Absent, fonts_symlink = Symlink True, printed = []\<rparr>"

definition sample_env :: "unit env" where
  "sample_env =
     \<lparr>source = File ''name: x'',
      safe_load = (\<lambda>f. Inr (PDict [(PStr ''name'', PStr ''x'')])),
      jinja_render = (\<lambda>data. Inr ''tex''),
      write_tex = (\<lambda>tex. None),
      cls_target_exists = True,
      fonts_target_exists = True,
      cls_fault = None,
      fonts_fault = None,
      run_tectonic = (\<lambda>tex. RunRaised (CalledProcessError ''error: bad input'')),
      cls_unlink_fault = None,
      fonts_unlink_fault = None\<rparr>"

text \<open>
  A run in an output directory that is not writable, with the source file already there
  and writable: the file is written, \<^verbatim>\<open>symlink_to\<close> and \<^verbatim>\<open>unlink\<close> are refused.
\<close>

definition readonly_env :: "unit env" where
  "readonly_env =
     sample_env\<lparr>cls_fault := Some PermissionError, fonts_fault := Some PermissionError,
                cls_unlink_fault := Some PermissionError,
                fonts_unlink_fault := Some PermissionError\<rparr>"

text \<open>
  The same run with an output name such as \<^verbatim>\<open>sub/resume\<close> whose directory does not
  exist: \<^verbatim>\<open>open(tex_file, "w")\<close> raises \<^verbatim>\<open>FileNotFoundError\<close>.
\<close>

definition unwritable_env :: "unit env" where
  "unwritable_env = sample_env\<lparr>write_tex := (\<lambda>tex. Some FileNotFoundError)\<rparr>"

definition sample_dir :: "string \<Rightarrow> string option" where
  "sample_dir name =
     (if name = ''personal.yaml'' then Some ''name: Ada''
      else if name = ''skills.yaml'' then Some ''- proofs''
      else None)"

definition sample_load :: "string \<Rightarrow> exc + unit pyval" where
  "sample_load f =
     (if f = ''name: Ada'' then Inr (PDict [(PStr ''name'', PStr ''Ada'')])
      else if f = ''- proofs'' then Inr (PList [PStr ''proofs''])
      else Inl OtherException)"

section \<open>Properties of the string primitives\<close>

lemma str_replace_char:
  "str_replace [c] r s = concat (map (\<lambda>x. if x = c then r else [x]) s)"
  by (induction s) (auto simp: str_replace_def)

lemma str_replace_char_append:
  "str_replace [c] r (a @ b) = str_replace [c] r a @ str_replace [c] r b"
  by (simp add: str_replace_char)

lemma apply_replacements_Nil: "apply_replacements [] s = s"
  by (simp add: apply_replacements_def)

lemma apply_replacements_Cons:
  "apply_replacements ((c, r) # table) s = apply_replacements table (str_replace [c] r s)"
  by (simp add: apply_replacements_def)

lemma apply_replacements_snoc:
  "apply_replacements (table @ [(c, r)]) s = str_replace [c] r (apply_replacements table s)"
  by (simp add: apply_replacements_def)

lemma apply_replacements_app:
  "apply_replacements (t1 @ t2) s = apply_replacements t2 (apply_replacements t1 s)"
  by (simp add: apply_replacements_def)

lemma apply_replacements_append:
  "apply_replacements table (a @ b) = apply_replacements table a @ apply_replacements table b"
proof (induction table arbitrary: a b)
  case Nil
  show ?case by (simp add: apply_replacements_Nil)
next
  case (Cons e table)
  obtain c r where e: "e = (c, r)" by (cases e)
  show ?case
    by (simp add: e apply_replacements_Cons str_replace_char_append Cons.IH)
qed

lemma apply_replacements_pointwise:
  "apply_replacements table s = concat (map (\<lambda>c. apply_replacements table [c]) s)"
proof (induction s)
  case Nil
  show ?case by (induction table) (auto simp: apply_replacements_Nil apply_replacements_Cons str_replace_char)
next
  case (Cons x xs)
  have "apply_replacements table (x # xs) = apply_replacements table ([x] @ xs)" by simp
  also have "\<dots> = apply_replacements table [x] @ apply_replacements table xs"
    by (rule apply_replacements_append)
  finally show ?case using Cons.IH by simp
qed

lemma str_replace_char_absent: "c \<notin> set s \<Longrightarrow> str_replace [c] r s = s"
  by (induction s) (auto simp: str_replace_char)

lemma apply_replacements_absent:
  "set s \<inter> fst ` set table = {} \<Longrightarrow> apply_replacements table s = s"
proof (induction table arbitrary: s)
  case Nil
  show ?case by (simp add: apply_replacements_Nil)
next
  case (Cons e table)
  obtain c r where e: "e = (c, r)" by (cases e)
  from Cons.prems have "c \<notin> set s" and "set s \<inter> fst ` set table = {}"
    by (auto simp: e)
  then show ?case
    by (simp add: e apply_replacements_Cons str_replace_char_absent Cons.IH)
qed

lemma str_replace_char_concat:
  "str_replace [c] r (concat (map f s)) = concat (map (\<lambda>x. str_replace [c] r (f x)) s)"
  by (induction s) (simp_all add: str_replace_char)

lemma apply_replacements_char_image:
  "distinct (map fst table) \<Longrightarrow> cross_free table \<Longrightarrow>
   apply_replacements table s = concat (map (char_image table) s)"
proof (induction table arbitrary: s rule: rev_induct)
  case Nil
  show ?case by (simp add: apply_replacements_Nil char_image_def)
next
  case (snoc e table)
  obtain c r where e: "e = (c, r)" by (cases e)
  from snoc.prems have d: "distinct (map fst table)" and c: "c \<notin> fst ` set table"
    by (auto simp: e)
  from snoc.prems have cf: "cross_free table"
    by (auto simp: cross_free_def)
  have step: "str_replace [c] r (char_image table x) = char_image (table @ [(c, r)]) x" for x
  proof (cases "map_of table x")
    case None
    then show ?thesis
      by (simp add: char_image_def str_replace_char map_add_def)
  next
    case (Some r')
    then have mem: "(x, r') \<in> set table" by (rule map_of_SomeD)
    with c have "x \<noteq> c" by force
    with mem snoc.prems(2) have "c \<notin> set r'"
      unfolding cross_free_def e by force
    then have "str_replace [c] r r' = r'" by (rule str_replace_char_absent)
    with Some show ?thesis
      by (simp add: char_image_def map_add_def)
  qed
  have "apply_replacements (table @ [e]) s = str_replace [c] r (apply_replacements table s)"
    by (simp add: e apply_replacements_snoc)
  also have "\<dots> = str_replace [c] r (concat (map (char_image table) s))"
    using snoc.IH [OF d cf] by simp
  also have "\<dots> = concat (map (\<lambda>x. str_replace [c] r (char_image table x)) s)"
    by (rule str_replace_char_concat)
  also have "\<dots> = concat (map (char_image (table @ [e])) s)"
    by (simp add: step e)
  finally show ?case .
qed

lemma base_distinct: "distinct (map fst base_replacements)"
  by (simp add: base_replacements_def)

lemma base_cross_free: "cross_free base_replacements"
  by (simp add: cross_free_def base_replacements_def)

lemma escape_raw_pointwise:
  "escape_latex s False = concat (map (\<lambda>c. escape_latex [c] False) s)"
  unfolding escape_latex_def Let_def
  using apply_replacements_pointwise [of "replacements False" s] by simp

lemma escape_raw_other:
  "c \<notin> set reserved_raw \<Longrightarrow> escape_latex [c] False = [c]"
  unfolding escape_latex_def Let_def
  by (simp add: apply_replacements_absent replacements_def base_replacements_def
      raw_replacements_def reserved_raw_def)

lemma escape_raw_reserved:
  "escape_latex ''&'' False = [backslash, CHR ''&'']"
  "escape_latex ''%'' False = [backslash, CHR ''%'']"
  "escape_latex ''$'' False = [backslash, CHR ''$'']"
  "escape_latex ''#'' False = [backslash, CHR ''#'']"
  "escape_latex ''~'' False = backslash # ''textasciitilde'' @ [backslash, CHR ''{'', backslash, CHR ''}'']"
  "escape_latex ''^'' False = backslash # ''textasciicircum'' @ [backslash, CHR ''{'', backslash, CHR ''}'']"
  "escape_latex ''_'' False = [backslash, CHR ''_'']"
  "escape_latex ''{'' False = [backslash, CHR ''{'']"
  "escape_latex ''}'' False = [backslash, CHR ''}'']"
  by code_simp+

lemma match_here_other: "d \<noteq> c \<Longrightarrow> match_here (d # ds) (c # cs) = None"
  by (simp add: match_here_def)

lemma re_sub_absent: "d \<notin> set s \<Longrightarrow> re_sub (d # ds) START END s = s"
  by (induction s) (simp_all add: match_here_other)

lemma str_replace_scan_absent:
  "\<not> contains old s \<Longrightarrow> str_replace_scan old new s = s"
  by (induction s) auto

lemma str_replace_absent:
  "old \<noteq> [] \<Longrightarrow> \<not> contains old s \<Longrightarrow> str_replace old new s = s"
  by (simp add: str_replace_def str_replace_scan_absent)

lemma convert_markdown_absent:
  assumes "CHR ''*'' \<notin> set s" "CHR ''_'' \<notin> set s" "CHR 0x60 \<notin> set s"
  shows "convert_markdown_to_latex s = s"
  using assms by (simp add: convert_markdown_to_latex_def re_sub_absent)

lemma resolve_placeholders_absent:
  assumes "\<not> contains TEXTBFSTART s" "\<not> contains TEXTBFEND s"
    "\<not> contains TEXTITSTART s" "\<not> contains TEXTITEND s"
    "\<not> contains TEXTTTSTART s" "\<not> contains TEXTTTEND s"
  shows "resolve_placeholders s = s"
proof -
  have ne: "TEXTBFSTART \<noteq> []" "TEXTBFEND \<noteq> []" "TEXTITSTART \<noteq> []" "TEXTITEND \<noteq> []"
    "TEXTTTSTART \<noteq> []" "TEXTTTEND \<noteq> []"
    by (simp_all add: placeholder_defs)
  show ?thesis
    unfolding resolve_placeholders_def Let_def
    using assms ne by (simp add: str_replace_absent)
qed

lemma escape_raw_Cons:
  "escape_latex (c # cs) False = escape_latex [c] False @ escape_latex cs False"
  using escape_raw_pointwise [of "c # cs"] escape_raw_pointwise [of cs] by simp

lemma escape_raw_Nil: "escape_latex [] False = []"
  using escape_raw_pointwise [of "[]"] by simp

lemma no_unescaped_plain:
  "c \<noteq> backslash \<Longrightarrow> c \<notin> set reserved_raw \<Longrightarrow> no_unescaped (c # rest) = no_unescaped rest"
  by (cases rest) simp_all

lemma no_unescaped_bare:
  "c \<in> set reserved_raw \<Longrightarrow> no_unescaped (c # rest) = False"
  by (cases rest) (auto simp: reserved_raw_def)

lemma no_unescaped_piece:
  assumes "c \<noteq> backslash"
  shows "no_unescaped (escape_latex [c] False @ rest) = no_unescaped rest"
proof (cases "c \<in> set reserved_raw")
  case False
  with assms show ?thesis by (simp add: escape_raw_other no_unescaped_plain)
next
  case True
  then consider "c = CHR ''&''" | "c = CHR ''%''" | "c = CHR ''$''" | "c = CHR ''#''"
    | "c = CHR ''~''" | "c = CHR ''^''" | "c = CHR ''_''" | "c = CHR ''{''" | "c = CHR ''}''"
    by (auto simp: reserved_raw_def)
  then show ?thesis
    by cases (simp_all add: escape_raw_reserved reserved_raw_def)
qed

lemma no_unescaped_after_backslash:
  "no_unescaped (backslash # escape_latex [x] False @ rest)
     = (x \<notin> set ''&%$#_{}'' \<and> no_unescaped rest)"
proof (cases "x \<in> set reserved_raw")
  case False
  then have "escape_latex [x] False = [x]" by (rule escape_raw_other)
  with False show ?thesis by (auto simp: reserved_raw_def)
next
  case True
  then consider "x = CHR ''&''" | "x = CHR ''%''" | "x = CHR ''$''" | "x = CHR ''#''"
    | "x = CHR ''~''" | "x = CHR ''^''" | "x = CHR ''_''" | "x = CHR ''{''" | "x = CHR ''}''"
    by (auto simp: reserved_raw_def)
  then show ?thesis
    by cases (simp_all add: escape_raw_reserved no_unescaped_bare reserved_raw_def)
qed

lemma escape_raw_backslash: "escape_latex [backslash] False = [backslash]"
  by (rule escape_raw_other) (simp add: reserved_raw_def)

lemma no_unescaped_escape_raw:
  "no_unescaped (escape_latex s False) = no_escaped_pair s"
proof (induction s rule: no_escaped_pair.induct)
  case 1
  show ?case by (simp add: escape_raw_Nil)
next
  case (2 c)
  show ?case
  proof (cases "c = backslash")
    case True
    then show ?thesis by (simp add: escape_raw_backslash reserved_raw_def)
  next
    case False
    then show ?thesis using no_unescaped_piece [of c "[]"] by simp
  qed
next
  case (3 c x xs)
  show ?case
  proof (cases "c = backslash")
    case True
    have "escape_latex (c # x # xs) False
            = backslash # escape_latex [x] False @ escape_latex xs False"
      using True escape_raw_Cons [of c "x # xs"] escape_raw_Cons [of x xs]
      by (simp add: escape_raw_backslash)
    then show ?thesis
      using True "3.IH"(1) by (simp add: no_unescaped_after_backslash)
  next
    case False
    have "escape_latex (c # x # xs) False = escape_latex [c] False @ escape_latex (x # xs) False"
      by (rule escape_raw_Cons)
    then show ?thesis
      using False "3.IH"(2) by (simp add: no_unescaped_piece)
  qed
qed

lemma no_escaped_pair_plain: "backslash \<notin> set s \<Longrightarrow> no_escaped_pair s"
  by (induction s rule: no_escaped_pair.induct) auto

lemma lazy_content_sound:
  "lazy_content D cs = Some (k, r) \<Longrightarrow> cs = k @ D @ r \<and> k \<noteq> [] \<and> newline \<notin> set k"
proof (induction cs arbitrary: k r)
  case Nil
  then show ?case by simp
next
  case (Cons c cs)
  from Cons.prems have c: "c \<noteq> newline" by (auto split: if_splits)
  show ?case
  proof (cases "prefix D cs")
    case True
    then have "cs = D @ drop (length D) cs" by (auto simp: prefix_def)
    with Cons.prems c True show ?thesis by auto
  next
    case False
    with Cons.prems c obtain k' where l: "lazy_content D cs = Some (k', r)" and k: "k = c # k'"
      by (auto split: option.splits)
    from Cons.IH [OF l] k c show ?thesis by auto
  qed
qed

lemma match_here_sound:
  assumes "match_here D text = Some (k, r)"
  shows "text = D @ k @ D @ r \<and> k \<noteq> [] \<and> newline \<notin> set k"
proof -
  from assms have p: "prefix D text" and l: "lazy_content D (drop (length D) text) = Some (k, r)"
    by (auto simp: match_here_def split: if_splits)
  from p have "text = D @ drop (length D) text" by (auto simp: prefix_def)
  with lazy_content_sound [OF l] show ?thesis by metis
qed

lemma re_sub_match:
  assumes "match_here D text = Some (k, r)"
  shows "re_sub D START END text = START @ k @ END @ re_sub D START END r"
proof (cases "text")
  case Nil
  with match_here_sound [OF assms] have False by auto
  then show ?thesis ..
next
  case (Cons c cs)
  with assms show ?thesis by simp
qed

lemma re_sub_copy:
  "\<forall>i < length before. match_here D (drop i (before @ text)) = None \<Longrightarrow>
   re_sub D START END (before @ text) = before @ re_sub D START END text"
proof (induction before)
  case Nil
  show ?case by simp
next
  case (Cons c cs)
  from Cons.prems have "match_here D (drop 0 ((c # cs) @ text)) = None" by blast
  then have n: "match_here D (c # cs @ text) = None" by simp
  have "\<forall>i < length cs. match_here D (drop i (cs @ text)) = None"
  proof (intro allI impI)
    fix i assume "i < length cs"
    then have "Suc i < length (c # cs)" by simp
    with Cons.prems have "match_here D (drop (Suc i) ((c # cs) @ text)) = None" by blast
    then show "match_here D (drop i (cs @ text)) = None" by simp
  qed
  with Cons.IH n show ?case by simp
qed

text \<open>
  The six replacements used with \<^verbatim>\<open>preserve_commands=True\<close> give the same text in
  any order: none of the six replacement texts contains another of the six characters.
\<close>

lemma base_replacements_any_order:
  assumes "mset table = mset (replacements True)"
  shows "apply_replacements table text = apply_replacements (replacements True) text"
proof -
  have m: "mset table = mset base_replacements"
    using assms by (simp add: replacements_def)
  then have s: "set table = set base_replacements" by (rule mset_eq_setD)
  have "mset (map fst table) = mset (map fst base_replacements)"
    using m by (metis mset_map)
  then have d: "distinct (map fst table)"
    using base_distinct by (metis mset_eq_imp_distinct_iff)
  have cf: "cross_free table"
    using base_cross_free s by (simp add: cross_free_def)
  have "map_of table = map_of base_replacements"
    using d base_distinct s by (simp add: map_of_inject_set)
  then have "char_image table = char_image base_replacements"
    by (simp add: char_image_def fun_eq_iff)
  then have "apply_replacements table text = apply_replacements base_replacements text"
    by (simp add: apply_replacements_char_image d cf base_distinct base_cross_free)
  then show ?thesis
    by (simp add: replacements_def)
qed

section \<open>Properties of the sanitizer and of the compiler invocation\<close>

lemma skeleton_escape_data: "skeleton (escape_data v) = skeleton v"
  by (induction v) (auto simp: comp_def)

lemma try_body_cls:
  "cls_symlink (snd (try_body env tex_content w)) \<noteq> cls_symlink w \<Longrightarrow> cls_symlink w = Absent"
  by (auto simp: try_body_def Let_def print_def symlink_to_def
      split: sum.splits if_splits run_result.splits option.splits)

lemma try_body_fonts:
  "fonts_symlink (snd (try_body env tex_content w)) \<noteq> fonts_symlink w \<Longrightarrow> fonts_symlink w = Absent"
  by (auto simp: try_body_def Let_def print_def symlink_to_def
      split: sum.splits if_splits run_result.splits option.splits)

lemma cleanup_fonts_raised:
  "(fst (cleanup_fonts env w) = None) = (\<not> is_symlink (fonts_symlink (snd (cleanup_fonts env w))))"
  "cls_symlink (snd (cleanup_fonts env w)) = cls_symlink w"
  by (cases "fonts_symlink w"; cases "fonts_unlink_fault env";
      simp add: cleanup_fonts_def unlink_def)+

lemma cleanup_raised:
  "(fst (cleanup env w) = None)
     = (\<not> is_symlink (cls_symlink (snd (cleanup env w)))
        \<and> \<not> is_symlink (fonts_symlink (snd (cleanup env w))))"
proof (cases "is_symlink (cls_symlink w)")
  case False
  then show ?thesis
    using cleanup_fonts_raised [of env w] by (simp add: cleanup_def)
next
  case True
  show ?thesis
  proof (cases "cls_unlink_fault env")
    case None
    with True show ?thesis
      using cleanup_fonts_raised [of env "w\<lparr>cls_symlink := Absent\<rparr>"]
      by (cases "cls_symlink w") (simp_all add: cleanup_def unlink_def)
  next
    case (Some e)
    with True show ?thesis by (simp add: cleanup_def unlink_def)
  qed
qed

lemma compile_latex_finally:
  "write_tex env tex_content = None \<Longrightarrow>
   snd (compile_latex env tex_content w) = snd (cleanup env (before_finally env tex_content w))"
  by (simp add: compile_latex_def before_finally_def Let_def split: prod.splits option.splits)

lemma cleanup_no_fault:
  "cls_unlink_fault env = None \<Longrightarrow> fonts_unlink_fault env = None \<Longrightarrow>
   fst (cleanup env w) = None"
  by (cases "cls_symlink w"; cases "fonts_symlink w")
     (simp_all add: cleanup_def cleanup_fonts_def unlink_def)

section \<open>The claims\<close>

text \<open>
  Claim C1. Translating the text \<^verbatim>\<open>**Bold** and _italic_ and `code` with 50% & more\<close>
  and then escaping it with \<^verbatim>\<open>preserve_commands=True\<close> gives a text that contains
  \<^verbatim>\<open>\textbf{Bold}\<close>, \<^verbatim>\<open>\textit{italic}\<close>, \<^verbatim>\<open>\texttt{code}\<close>,
  \<^verbatim>\<open>\%\<close> and \<^verbatim>\<open>\&\<close>, and none of the six placeholder markers.
\<close>

theorem roundtrip_scenario:
  "contains (backslash # ''textbf{Bold}'')
     (escape_latex (convert_markdown_to_latex
        ''**Bold** and _italic_ and `code` with 50% & more'') True)
   \<and> contains (backslash # ''textit{italic}'')
     (escape_latex (convert_markdown_to_latex
        ''**Bold** and _italic_ and `code` with 50% & more'') True)
   \<and> contains (backslash # ''texttt{code}'')
     (escape_latex (convert_markdown_to_latex
        ''**Bold** and _italic_ and `code` with 50% & more'') True)
   \<and> contains (backslash # ''%'')
     (escape_latex (convert_markdown_to_latex
        ''**Bold** and _italic_ and `code` with 50% & more'') True)
   \<and> contains (backslash # ''&'')
     (escape_latex (convert_markdown_to_latex
        ''**Bold** and _italic_ and `code` with 50% & more'') True)
   \<and> list_all (\<lambda>marker. \<not> contains marker
       (escape_latex (convert_markdown_to_latex
          ''**Bold** and _italic_ and `code` with 50% & more'') True))
     [''<<<TEXTBFSTART>>>'', ''<<<TEXTBFEND>>>'', ''<<<TEXTITSTART>>>'', ''<<<TEXTITEND>>>'',
      ''<<<TEXTTTSTART>>>'', ''<<<TEXTTTEND>>>'']"
  by code_simp

text \<open>
  Claim C2, as stated (the content between matched delimiters is never scanned for
  further markers, so no placeholder is created inside an earlier one), fails: the four
  substitutions run one after another over the whole text, and for \<^verbatim>\<open>**a _b_ c**\<close>
  the italic pass finds \<^verbatim>\<open>_b_\<close> inside the bold placeholder.
\<close>

theorem nested_markers_counterexample:
  "convert_markdown_to_latex ''**a _b_ c**''
     = ''<<<TEXTBFSTART>>>a <<<TEXTITSTART>>>b<<<TEXTITEND>>> c<<<TEXTBFEND>>>''
   \<and> convert_markdown_to_latex ''**a _b_ c**'' \<noteq> ''<<<TEXTBFSTART>>>a _b_ c<<<TEXTBFEND>>>''"
  by code_simp

text \<open>
  Claim C2, amended. Within one substitution pass, wherever the pattern matches (and at
  no earlier position of the text before it), the matched text is the delimiter, a
  non-empty content without newline, and the delimiter again; the pass copies the text
  before, emits the placeholder around the unchanged content, and goes on after the
  closing delimiter without scanning the content. The passes run one after another over
  the whole text, so a later pass does scan the content of earlier placeholders: for
  \<^verbatim>\<open>**a _b_ c**\<close> the italic placeholder ends up inside the bold one.
\<close>

theorem re_sub_wraps_content_verbatim:
  assumes "match_here D text = Some (content, rest)"
    and "\<forall>i < length before. match_here D (drop i (before @ text)) = None"
  shows "text = D @ content @ D @ rest \<and> content \<noteq> [] \<and> newline \<notin> set content
         \<and> re_sub D START END (before @ text)
             = before @ START @ content @ END @ re_sub D START END rest
         \<and> convert_markdown_to_latex ''**a _b_ c**''
             = ''<<<TEXTBFSTART>>>a <<<TEXTITSTART>>>b<<<TEXTITEND>>> c<<<TEXTBFEND>>>''"
proof -
  have "convert_markdown_to_latex ''**a _b_ c**''
          = ''<<<TEXTBFSTART>>>a <<<TEXTITSTART>>>b<<<TEXTITEND>>> c<<<TEXTBFEND>>>''"
    by code_simp
  then show ?thesis
    using match_here_sound [OF assms(1)] re_sub_match [OF assms(1)] re_sub_copy [OF assms(2)]
    by simp
qed

theorem re_sub_wraps_content_verbatim_witness:
  "match_here ''*'' ''*b* c'' = Some (''b'', '' c'')
   \<and> match_here ''*'' (drop 0 ((''*a'' @ [newline]) @ ''*b* c'')) = None
   \<and> match_here ''*'' (drop 1 ((''*a'' @ [newline]) @ ''*b* c'')) = None
   \<and> match_here ''*'' (drop 2 ((''*a'' @ [newline]) @ ''*b* c'')) = None
   \<and> re_sub ''*'' TEXTBFSTART TEXTBFEND ((''*a'' @ [newline]) @ ''*b* c'')
       = (''*a'' @ [newline]) @ TEXTBFSTART @ ''b'' @ TEXTBFEND
           @ re_sub ''*'' TEXTBFSTART TEXTBFEND '' c''"
proof -
  have m: "match_here ''*'' ''*b* c'' = Some (''b'', '' c'')" by code_simp
  have n: "match_here ''*'' (drop 0 ((''*a'' @ [newline]) @ ''*b* c'')) = None"
    "match_here ''*'' (drop 1 ((''*a'' @ [newline]) @ ''*b* c'')) = None"
    "match_here ''*'' (drop 2 ((''*a'' @ [newline]) @ ''*b* c'')) = None"
    by code_simp+
  have a: "\<forall>i < length (''*a'' @ [newline]).
             match_here ''*'' (drop i ((''*a'' @ [newline]) @ ''*b* c'')) = None"
  proof (intro allI impI)
    fix i assume "i < length (''*a'' @ [newline])"
    then have "i = 0 \<or> i = 1 \<or> i = 2" by auto
    with n show "match_here ''*'' (drop i ((''*a'' @ [newline]) @ ''*b* c'')) = None"
      by blast
  qed
  show ?thesis
    using m n re_sub_wraps_content_verbatim [OF m a, of TEXTBFSTART TEXTBFEND] by blast
qed

text \<open>
  Claim C3 says that the replacements give the same text in any order, also with the
  three raw-mode entries. The code's own table breaks this: the replacement texts of
  \<^verbatim>\<open>~\<close> and \<^verbatim>\<open>^\<close> end in braces, and in raw mode the later entries for the
  braces run over the text the loop has just inserted. For the text \<^verbatim>\<open>~\<close> raw mode
  returns \<^verbatim>\<open>\textasciitilde\{\}\<close>, where the table entry, the preserving mode and the
  reverse order of the same table all give \<^verbatim>\<open>\textasciitilde{}\<close>.
\<close>

theorem raw_replacement_order_matters:
  "escape_latex ''~'' False
       = backslash # ''textasciitilde'' @ [backslash, CHR ''{'', backslash, CHR ''}'']
   \<and> escape_latex ''~'' True = backslash # ''textasciitilde{}''
   \<and> mset (rev (replacements False)) = mset (replacements False)
   \<and> apply_replacements (rev (replacements False)) ''~'' = backslash # ''textasciitilde{}''
   \<and> apply_replacements (rev (replacements False)) ''~''
       \<noteq> apply_replacements (replacements False) ''~''"
  by (simp add: replacements_def base_replacements_def raw_replacements_def
      apply_replacements_def str_replace_def escape_latex_def resolve_placeholders_def
      placeholder_defs)

text \<open>
  Claim C4, as stated (for every text the raw-mode result has no unescaped reserved
  character), fails on a text with a backslash: the escaper has no entry for the
  backslash, so \<^verbatim>\<open>\_\<close> becomes \<^verbatim>\<open>\\_\<close>, which reads as a double backslash
  followed by a bare underscore.
\<close>

theorem backslash_input_counterexample:
  "escape_latex [backslash, CHR ''_''] False = [backslash, backslash, CHR ''_'']
   \<and> \<not> no_unescaped (escape_latex [backslash, CHR ''_''] False)"
  by code_simp

text \<open>
  Claim C4, amended. The raw-mode result has no unescaped occurrence of the nine
  reserved characters exactly when the input, read the same way, has no backslash taking
  one of \<^verbatim>\<open>& % $ # _ { }\<close> with it; in particular for every text without a backslash.
\<close>

theorem raw_escape_no_unescaped:
  "no_unescaped (escape_latex s False) = no_escaped_pair s
   \<and> (backslash \<notin> set s \<longrightarrow> no_unescaped (escape_latex s False))"
  using no_unescaped_escape_raw [of s] no_escaped_pair_plain [of s] by simp

theorem raw_escape_no_unescaped_witness:
  "backslash \<notin> set ''a_b {50%} ~x''
   \<and> no_escaped_pair ''a_b {50%} ~x''
   \<and> no_unescaped (escape_latex ''a_b {50%} ~x'' False)"
proof -
  have h: "backslash \<notin> set ''a_b {50%} ~x''" by simp
  show ?thesis
    using h raw_escape_no_unescaped [of "''a_b {50%} ~x''"] by blast
qed

text \<open>
  Claim C5, as stated (a text without marker and reserved characters is returned
  unchanged), fails on a text that contains a placeholder marker: the text
  \<^verbatim>\<open><<<TEXTBFSTART>>>\<close> has none of these characters and comes back as
  \<^verbatim>\<open>\textbf{\<close>.
\<close>

theorem placeholder_collision_counterexample:
  "set ''<<<TEXTBFSTART>>>'' \<inter> set ''*_`&%$#~^'' = {}
   \<and> escape_latex (convert_markdown_to_latex ''<<<TEXTBFSTART>>>'') True = backslash # ''textbf{''
   \<and> escape_latex (convert_markdown_to_latex ''<<<TEXTBFSTART>>>'') True \<noteq> ''<<<TEXTBFSTART>>>''"
  by code_simp

text \<open>
  Claim C5, amended. A text that contains no marker character, no reserved character and
  none of the six placeholder markers is returned unchanged by the sanitizer of string
  leaves.
\<close>

theorem sanitize_plain_identity:
  assumes "set s \<inter> set ''*_`'' = {}"
    and "set s \<inter> set ''&%$#~^'' = {}"
    and "\<forall>marker \<in> set [TEXTBFSTART, TEXTBFEND, TEXTITSTART, TEXTITEND, TEXTTTSTART, TEXTTTEND].
           \<not> contains marker s"
  shows "escape_latex (convert_markdown_to_latex s) True = s
         \<and> escape_data (PStr s) = PStr s"
proof -
  have "convert_markdown_to_latex s = s"
    using assms(1) by (intro convert_markdown_absent) auto
  moreover have "apply_replacements (replacements True) s = s"
    using assms(2)
    by (intro apply_replacements_absent) (auto simp: replacements_def base_replacements_def)
  moreover have "resolve_placeholders s = s"
    using assms(3) by (intro resolve_placeholders_absent) simp_all
  ultimately show ?thesis
    by (simp add: escape_latex_def)
qed

theorem sanitize_plain_identity_witness:
  "set ''Senior Engineer, <2020>'' \<inter> set ''*_`'' = {}
   \<and> set ''Senior Engineer, <2020>'' \<inter> set ''&%$#~^'' = {}
   \<and> \<not> contains TEXTBFSTART ''Senior Engineer, <2020>''
   \<and> \<not> contains TEXTBFEND ''Senior Engineer, <2020>''
   \<and> \<not> contains TEXTITSTART ''Senior Engineer, <2020>''
   \<and> \<not> contains TEXTITEND ''Senior Engineer, <2020>''
   \<and> \<not> contains TEXTTTSTART ''Senior Engineer, <2020>''
   \<and> \<not> contains TEXTTTEND ''Senior Engineer, <2020>''
   \<and> escape_latex (convert_markdown_to_latex ''Senior Engineer, <2020>'') True
       = ''Senior Engineer, <2020>''
   \<and> escape_data (PStr ''Senior Engineer, <2020>'' :: unit pyval)
       = PStr ''Senior Engineer, <2020>''"
proof -
  have a: "set ''Senior Engineer, <2020>'' \<inter> set ''*_`'' = {}" by simp
  have b: "set ''Senior Engineer, <2020>'' \<inter> set ''&%$#~^'' = {}" by simp
  have m: "\<not> contains TEXTBFSTART ''Senior Engineer, <2020>''"
    "\<not> contains TEXTBFEND ''Senior Engineer, <2020>''"
    "\<not> contains TEXTITSTART ''Senior Engineer, <2020>''"
    "\<not> contains TEXTITEND ''Senior Engineer, <2020>''"
    "\<not> contains TEXTTTSTART ''Senior Engineer, <2020>''"
    "\<not> contains TEXTTTEND ''Senior Engineer, <2020>''"
    by (simp_all add: placeholder_defs)
  have c: "\<forall>marker \<in> set [TEXTBFSTART, TEXTBFEND, TEXTITSTART, TEXTITEND, TEXTTTSTART, TEXTTTEND].
           \<not> contains marker ''Senior Engineer, <2020>''"
    using m by simp
  show ?thesis
    using a b m sanitize_plain_identity [OF a b c] by blast
qed

text \<open>
  Claim C6. The sanitizer keeps the structure: a mapping becomes a mapping with the same
  keys in the same order, the keys untouched and each value sanitized; a sequence becomes
  a sequence of the same length whose elements are the sanitized elements in order; a
  string becomes the escaped translation; any other value is returned as it is. Hence
  the value and its image differ in the text of string leaves only.
\<close>

theorem escape_data_structure_preserving:
  "(\<exists>items'. escape_data (PDict items) = PDict items'
        \<and> map fst items' = map fst items
        \<and> map snd items' = map (escape_data \<circ> snd) items)
   \<and> (\<exists>elems'. escape_data (PList elems) = PList elems'
        \<and> length elems' = length elems
        \<and> (\<forall>i < length elems. elems' ! i = escape_data (elems ! i)))
   \<and> escape_data (PStr s) = PStr (escape_latex (convert_markdown_to_latex s) True)
   \<and> escape_data PNone = PNone
   \<and> escape_data (PBool b) = PBool b
   \<and> escape_data (PInt n) = PInt n
   \<and> escape_data (POther x) = POther x
   \<and> skeleton (escape_data v) = skeleton v"
  by (simp add: comp_def skeleton_escape_data)

theorem escape_data_structure_preserving_witness:
  "1 < length experience
   \<and> escape_data (PList experience) =
       PList [PDict [(PStr ''job_title'', PStr (''R'' @ backslash # ''&D '' @ backslash # ''textbf{lead}'')),
                     (PStr ''years'', PInt 3)],
              PDict [(PStr ''job_title'', PStr ''dev_ops''), (PStr ''remote'', PBool True)]]
   \<and> (\<exists>elems'. escape_data (PList experience) = PList elems'
         \<and> length elems' = length experience
         \<and> elems' ! 1 = escape_data (experience ! 1))"
proof -
  have l: "1 < length experience" by (simp add: experience_def)
  have e: "escape_data (PList experience) =
       PList [PDict [(PStr ''job_title'', PStr (''R'' @ backslash # ''&D '' @ backslash # ''textbf{lead}'')),
                     (PStr ''years'', PInt 3)],
              PDict [(PStr ''job_title'', PStr ''dev_ops''), (PStr ''remote'', PBool True)]]"
    unfolding experience_def by code_simp
  have "\<exists>elems'. escape_data (PList experience) = PList elems'
         \<and> length elems' = length experience
         \<and> (\<forall>i < length experience. elems' ! i = escape_data (experience ! i))"
    using escape_data_structure_preserving [of "[]" experience "[]" True 0 "()" PNone]
    by blast
  then obtain elems' where "escape_data (PList experience) = PList elems'"
    and "length elems' = length experience"
    and "\<forall>i < length experience. elems' ! i = escape_data (experience ! i)"
    by blast
  with l have "\<exists>elems'. escape_data (PList experience) = PList elems'
         \<and> length elems' = length experience
         \<and> elems' ! 1 = escape_data (experience ! 1)"
    by blast
  with l e show ?thesis by blast
qed

text \<open>
  Claim C7, as stated (after every run that reached the \<^verbatim>\<open>try\<close> statement neither
  path is a symbolic link), fails when \<^verbatim>\<open>unlink\<close> itself is refused: in an output
  directory that is not writable, with a link \<^verbatim>\<open>fonts\<close> left there, the
  \<^verbatim>\<open>finally\<close> clause raises and the link stays.
\<close>

theorem unlink_refused_counterexample:
  "write_tex readonly_env ''tex'' = None
   \<and> compile_latex readonly_env ''tex'' sample_world =
       (Inl PermissionError,
        \<lparr>cls_symlink = Absent, fonts_symlink = Symlink True,
         printed = [(Stdout, TexWritten)]\<rparr>)
   \<and> is_symlink (fonts_symlink (snd (compile_latex readonly_env ''tex'' sample_world)))"
  by (simp add: compile_latex_def try_body_def cleanup_def cleanup_fonts_def unlink_def
      symlink_to_def print_def readonly_env_def sample_env_def sample_world_def Let_def)

text \<open>
  Claim C7, amended. Once \<^verbatim>\<open>compile_latex\<close> has written the source file and entered
  its \<^verbatim>\<open>try\<close> statement, then however the body ends, neither
  \<^verbatim>\<open>awesome-cv.cls\<close> nor \<^verbatim>\<open>fonts\<close> is a symbolic link afterwards exactly when
  the \<^verbatim>\<open>finally\<close> clause does not raise, in particular when no \<^verbatim>\<open>unlink\<close> is
  refused; and the body changes either path only where nothing was there before.
\<close>

theorem cleanup_removes_symlinks:
  assumes "write_tex env tex_content = None"
  shows "(\<not> is_symlink (cls_symlink (snd (compile_latex env tex_content w)))
          \<and> \<not> is_symlink (fonts_symlink (snd (compile_latex env tex_content w))))
           = (fst (cleanup env (before_finally env tex_content w)) = None)
         \<and> (cls_unlink_fault env = None \<and> fonts_unlink_fault env = None \<longrightarrow>
              \<not> is_symlink (cls_symlink (snd (compile_latex env tex_content w)))
              \<and> \<not> is_symlink (fonts_symlink (snd (compile_latex env tex_content w))))
         \<and> (cls_symlink (snd (try_body env tex_content w)) \<noteq> cls_symlink w
              \<longrightarrow> cls_symlink w = Absent)
         \<and> (fonts_symlink (snd (try_body env tex_content w)) \<noteq> fonts_symlink w
              \<longrightarrow> fonts_symlink w = Absent)"
proof -
  let ?b = "before_finally env tex_content w"
  have s: "snd (compile_latex env tex_content w) = snd (cleanup env ?b)"
    using assms by (rule compile_latex_finally)
  have a: "(\<not> is_symlink (cls_symlink (snd (compile_latex env tex_content w)))
          \<and> \<not> is_symlink (fonts_symlink (snd (compile_latex env tex_content w))))
           = (fst (cleanup env ?b) = None)"
    using cleanup_raised [of env ?b] s by simp
  have b: "cls_unlink_fault env = None \<and> fonts_unlink_fault env = None \<longrightarrow>
              \<not> is_symlink (cls_symlink (snd (compile_latex env tex_content w)))
              \<and> \<not> is_symlink (fonts_symlink (snd (compile_latex env tex_content w)))"
    using a cleanup_no_fault [of env ?b] by simp
  show ?thesis
    using a b try_body_cls [of env tex_content w] try_body_fonts [of env tex_content w]
    by blast
qed

theorem cleanup_removes_symlinks_witness:
  "write_tex sample_env ''tex'' = None
   \<and> cls_unlink_fault sample_env = None
   \<and> fonts_unlink_fault sample_env = None
   \<and> compile_latex sample_env ''tex'' sample_world =
       (Inr False,
        \<lparr>cls_symlink = Absent, fonts_symlink = Absent,
         printed = [(Stdout, TexWritten), (Stdout, Compiling),
                    (Stderr, ErrorCompiling ''error: bad input'')]\<rparr>)
   \<and> \<not> is_symlink (cls_symlink (snd (compile_latex sample_env ''tex'' sample_world)))
   \<and> \<not> is_symlink (fonts_symlink (snd (compile_latex sample_env ''tex'' sample_world)))
   \<and> cls_symlink (snd (try_body sample_env ''tex'' sample_world)) = Symlink True"
proof -
  have h: "write_tex sample_env ''tex'' = None" by (simp add: sample_env_def)
  have f: "cls_unlink_fault sample_env = None" "fonts_unlink_fault sample_env = None"
    by (simp_all add: sample_env_def)
  have c: "compile_latex sample_env ''tex'' sample_world =
       (Inr False,
        \<lparr>cls_symlink = Absent, fonts_symlink = Absent,
         printed = [(Stdout, TexWritten), (Stdout, Compiling),
                    (Stderr, ErrorCompiling ''error: bad input'')]\<rparr>)"
    by (simp add: compile_latex_def try_body_def cleanup_def cleanup_fonts_def unlink_def
        symlink_to_def print_def sample_env_def sample_world_def Let_def)
  have t: "cls_symlink (snd (try_body sample_env ''tex'' sample_world)) = Symlink True"
    by (simp add: try_body_def symlink_to_def print_def sample_env_def sample_world_def Let_def)
  show ?thesis
    using h f c t cleanup_removes_symlinks [OF h, of sample_world] by blast
qed

text \<open>
  Claim C8 says that no exception leaves \<^verbatim>\<open>generate\<close>. The loading and rendering
  stages catch every \<^verbatim>\<open>Exception\<close>, but \<^verbatim>\<open>compile_latex\<close> writes the source
  file before its \<^verbatim>\<open>try\<close> statement and has handlers for two exception classes only.
  In the run below the data loads and renders, writing the file raises
  \<^verbatim>\<open>FileNotFoundError\<close>, and the exception leaves \<^verbatim>\<open>generate\<close> and
  \<^verbatim>\<open>main\<close> uncaught.
\<close>

theorem generate_propagates_write_failure:
  "generate unwritable_env sample_world =
     (Inl FileNotFoundError,
      sample_world\<lparr>printed := [(Stdout, Generating), (Stdout, Loaded), (Stdout, Rendered)]\<rparr>)
   \<and> main unwritable_env sample_world = Uncaught FileNotFoundError"
  by (simp add: main_def generate_def load_resume_data_def render_template_def compile_latex_def
      print_def unwritable_env_def sample_env_def sample_world_def Let_def)

text \<open>
  Claim C9. For a directory in which, of the seven section files, only
  \<^verbatim>\<open>personal.yaml\<close> and \<^verbatim>\<open>skills.yaml\<close> exist (and parse), the loader returns
  a mapping with exactly the keys \<^verbatim>\<open>personal\<close> and \<^verbatim>\<open>skills\<close>, each bound to
  what its file holds; no key is made for an absent section.
\<close>

theorem directory_load_two_sections:
  assumes "data_dir ''personal.yaml'' = Some p" and "data_dir ''skills.yaml'' = Some k"
    and "\<forall>section \<in> set sections.
           section \<noteq> ''personal'' \<and> section \<noteq> ''skills'' \<longrightarrow>
           data_dir (section @ ''.yaml'') = None"
    and "load p = Inr vp" and "load k = Inr vk"
  shows "load_from_directory load data_dir = Inr [(''personal'', vp), (''skills'', vk)]
         \<and> (\<forall>data. load_from_directory load data_dir = Inr data \<longrightarrow>
               set (map fst data) = {''personal'', ''skills''})
         \<and> (source env = Directory data_dir \<and> safe_load env = load \<longrightarrow>
               load_resume_data env
                 = Inr (PDict [(PStr ''personal'', vp), (PStr ''skills'', vk)]))"
proof -
  have "load_from_directory load data_dir = Inr [(''personal'', vp), (''skills'', vk)]"
    using assms by (simp add: load_from_directory_def sections_def)
  then show ?thesis
    by (auto simp: load_resume_data_def)
qed

theorem directory_load_two_sections_witness:
  "sample_dir ''personal.yaml'' = Some ''name: Ada''
   \<and> sample_dir ''skills.yaml'' = Some ''- proofs''
   \<and> sample_dir ''config.yaml'' = None
   \<and> sample_dir ''experience.yaml'' = None
   \<and> sample_dir ''projects.yaml'' = None
   \<and> sample_dir ''education.yaml'' = None
   \<and> sample_dir ''research.yaml'' = None
   \<and> sample_load ''name: Ada'' = Inr (PDict [(PStr ''name'', PStr ''Ada'')])
   \<and> sample_load ''- proofs'' = Inr (PList [PStr ''proofs''])
   \<and> load_from_directory sample_load sample_dir
       = Inr [(''personal'', PDict [(PStr ''name'', PStr ''Ada'')]),
              (''skills'', PList [PStr ''proofs''])]"
proof -
  have a: "sample_dir ''personal.yaml'' = Some ''name: Ada''" by (simp add: sample_dir_def)
  have b: "sample_dir ''skills.yaml'' = Some ''- proofs''" by (simp add: sample_dir_def)
  have n: "sample_dir ''config.yaml'' = None" "sample_dir ''experience.yaml'' = None"
    "sample_dir ''projects.yaml'' = None" "sample_dir ''education.yaml'' = None"
    "sample_dir ''research.yaml'' = None"
    by (simp_all add: sample_dir_def)
  have c: "\<forall>section \<in> set sections.
           section \<noteq> ''personal'' \<and> section \<noteq> ''skills'' \<longrightarrow>
           sample_dir (section @ ''.yaml'') = None"
    using n by (simp add: sections_def)
  have d: "sample_load ''name: Ada'' = Inr (PDict [(PStr ''name'', PStr ''Ada'')])"
    by (simp add: sample_load_def)
  have e: "sample_load ''- proofs'' = Inr (PList [PStr ''proofs''])"
    by (simp add: sample_load_def)
  show ?thesis
    using a b n d e directory_load_two_sections [OF a b c d e] by blast
qed

text \<open>
  Claim C10. Escaping in raw mode (\<^verbatim>\<open>preserve_commands=False\<close>) is not idempotent:
  the text \<^verbatim>\<open>%\<close> becomes \<^verbatim>\<open>\%\<close>, and escaping that again gives
  \<^verbatim>\<open>\\%\<close>, because the percent sign of the first escape sequence is replaced again.
\<close>

theorem raw_escape_not_idempotent:
  "escape_latex ''%'' False = [backslash, CHR ''%'']
   \<and> escape_latex (escape_latex ''%'' False) False = [backslash, backslash, CHR ''%'']
   \<and> escape_latex (escape_latex ''%'' False) False \<noteq> escape_latex ''%'' False"
  by code_simp

end
